theory Spec2Isabelle
  imports Main "HOL-Library.Word" "HOL-Library.Sublist"
begin

unbundle bit_operations_syntax

section \<open>The flow manager of action/flow/support/manager.go\<close>

text \<open>
  The file holds the \<open>FlowManager\<close> (two caches of materialized flow definitions and a
  pluggable provider), the default provider \<open>BasicRemoteFlowProvider\<close> (file and HTTP
  transport) and the two decoding helpers \<open>decodeAndUnzip\<close> and \<open>unzip\<close>.

  Everything the file calls and does not define (the Go standard library, the packages
  \<open>definition\<close>, \<open>fggos\<close>, \<open>util\<close>) is a parameter of the model: a field of one of
  the records \<open>libs\<close> (pure library functions) and \<open>io\<close> (the file system and the
  network, as the provider sees them at the time of a call). Logging is left out: it
  changes neither a result nor a cache; so are the package variable \<open>defaultManager\<close>
  and its getter, which no function below reads.
\<close>

subsection \<open>Values\<close>

type_synonym byte = "8 word"
type_synonym bytes = "byte list"

text \<open>
  A Go \<open>string\<close> is a byte sequence; \<open>string(b)\<close> keeps the bytes. URIs, ids and
  header values are written as HOL strings, whose characters are bytes as well.
\<close>

definition string_of_bytes :: "bytes \<Rightarrow> string" where
  "string_of_bytes b = map (\<lambda>w. char_of (unat w)) b"

definition bytes_of_string :: "string \<Rightarrow> bytes" where
  "bytes_of_string s = map (\<lambda>c. of_nat (of_char c)) s"

text \<open>
  A Go \<open>error\<close> is a value with a message. \<open>Errorf\<close> is what \<open>fmt.Errorf\<close> builds,
  \<open>CorruptInputError\<close> is the error of \<open>encoding/base64\<close>, and \<open>LibError\<close> stands for
  any other error a library call returns, by its message.
\<close>

datatype error = Errorf string | CorruptInputError nat | LibError string

function decimal :: "nat \<Rightarrow> string" where
  "decimal n = (if n < 10 then [char_of (48 + n)] else decimal (n div 10) @ [char_of (48 + n mod 10)])"
  by pat_completeness auto
termination
  by (relation "measure id") auto

definition fmt_d :: "int \<Rightarrow> string" where
  "fmt_d i = (if i < 0 then CHR ''-'' # decimal (nat (- i)) else decimal (nat i))"

fun Error_msg :: "error \<Rightarrow> string" where
  "Error_msg (Errorf m) = m"
| "Error_msg (CorruptInputError n) = ''illegal base64 data at input byte '' @ decimal n"
| "Error_msg (LibError m) = m"

text \<open>
  What a call does: it returns a value, returns an error, or panics. A panic is not an
  error value: it unwinds the callers.
\<close>

datatype panic = IndexOutOfRange nat nat | NilPointerDereference

datatype 'a res = Val 'a | Err error | Panic panic

text \<open>The index expression \<open>xs[i]\<close> of Go: a run-time panic outside the slice.\<close>

definition at :: "'a list \<Rightarrow> nat \<Rightarrow> 'a res" where
  "at xs i = (if i < length xs then Val (xs ! i) else Panic (IndexOutOfRange i (length xs)))"

subsection \<open>The libraries the file calls\<close>

text \<open>
  \<open>definition.Definition\<close>, as far as this file touches it: whatever
  \<open>definition.NewDefinition\<close> builds, and the link-expression manager that
  \<open>SetLinkExprManager\<close> stores in it.
\<close>

record ('d, 'm) Definition =
  def_body :: 'd
  linkExprMgr :: "'m option"

definition SetLinkExprManager :: "('d, 'm) Definition \<Rightarrow> 'm \<Rightarrow> ('d, 'm) Definition" where
  "SetLinkExprManager def mgr = def\<lparr>linkExprMgr := Some mgr\<rparr>"

text \<open>
  The pure library functions. \<open>base64_DecodeString\<close> is
  \<open>base64.StdEncoding.DecodeString\<close>: it returns the bytes decoded so far together with
  the error, if any. \<open>gzip_NewReader\<close> reads the gzip header of a buffer and returns the
  reader (here: the part of the buffer behind the header); \<open>gzip_ReadAll\<close> is
  \<open>ioutil.ReadAll\<close> on that reader. A link-expression manager factory is the function
  \<open>NewLinkExprManager\<close> of the factory object. The library functions are taken to
  return: a panic inside one of them would unwind its callers before any cache is
  written.
\<close>

record ('rep, 'd, 'm) libs =
  base64_DecodeString :: "string \<Rightarrow> bytes \<times> error option"
  gzip_NewReader :: "bytes \<Rightarrow> error + bytes"
  gzip_ReadAll :: "bytes \<Rightarrow> error + bytes"
  json_Unmarshal :: "bytes \<Rightarrow> error + 'rep"
  NewDefinition :: "'rep \<Rightarrow> error + ('d, 'm) Definition"
  GetLinkExprManagerFactory :: "(('d, 'm) Definition \<Rightarrow> 'm) option"
  GosLinkExprManagerFactory :: "('d, 'm) Definition \<Rightarrow> 'm"

text \<open>
  The world of the default provider: the file system and the network. The header of a
  response is keyed by canonical header names, as \<open>http.Header\<close> is; reading the body
  can fail.
\<close>

record Request =
  req_Method :: string
  req_URL :: string

record Response =
  Status :: string
  StatusCode :: int
  Header :: "string \<Rightarrow> string list"
  Body :: "error + bytes"

record io =
  URLStringToFilePath :: "string \<Rightarrow> string"
  ReadFile :: "string \<Rightarrow> error + bytes"
  http_NewRequest :: "string \<Rightarrow> string \<Rightarrow> Request option \<times> error option"
  client_Do :: "Request \<Rightarrow> error + Response"

text \<open>
  \<open>strings.ToLower\<close> on the bytes of the string: the letters A to Z are mapped to a to
  z. Go maps the characters outside ASCII through the Unicode tables; none of them has
  one of the letters t, r, u, e as its lower case, so the comparison with \<open>"true"\<close>, the
  only use of the function here, does not see the difference.
\<close>

definition toLower_byte :: "char \<Rightarrow> char" where
  "toLower_byte c =
     (if (of_char (CHR ''A'') :: nat) \<le> of_char c \<and> (of_char c :: nat) \<le> of_char (CHR ''Z'')
      then char_of (of_char c + (32::nat)) else c)"

definition strings_ToLower :: "string \<Rightarrow> string" where
  "strings_ToLower s = map toLower_byte s"

text \<open>
  \<open>Header.Get\<close>: the first value stored under the canonical form of the key, or the
  empty string. \<open>textproto.CanonicalMIMEHeaderKey\<close> leaves a key with a byte that is
  not allowed in a header name as it is; in any other key the first letter and every
  letter behind a hyphen become upper case, the other letters lower case.
\<close>

definition toUpper_byte :: "char \<Rightarrow> char" where
  "toUpper_byte c =
     (if (of_char (CHR ''a'') :: nat) \<le> of_char c \<and> (of_char c :: nat) \<le> of_char (CHR ''z'')
      then char_of (of_char c - (32::nat)) else c)"

definition validHeaderFieldByte :: "char \<Rightarrow> bool" where
  "validHeaderFieldByte c =
     (let n = (of_char c :: nat) in
      (48 \<le> n \<and> n \<le> 57) \<or> (65 \<le> n \<and> n \<le> 90) \<or> (97 \<le> n \<and> n \<le> 122)
      \<or> n \<in> {33, 35, 36, 37, 38, 39, 42, 43, 45, 46, 94, 95, 96, 124, 126})"

fun canonical :: "bool \<Rightarrow> string \<Rightarrow> string" where
  "canonical upper [] = []"
| "canonical upper (c # cs) =
     (if upper then toUpper_byte c else toLower_byte c) # canonical (c = CHR ''-'') cs"

definition CanonicalMIMEHeaderKey :: "string \<Rightarrow> string" where
  "CanonicalMIMEHeaderKey key = (if list_all validHeaderFieldByte key then canonical True key else key)"

definition Header_Get :: "(string \<Rightarrow> string list) \<Rightarrow> string \<Rightarrow> string" where
  "Header_Get h key = (case h (CanonicalMIMEHeaderKey key) of [] \<Rightarrow> [] | v # _ \<Rightarrow> v)"

subsection \<open>unzip and decodeAndUnzip\<close>

definition unzip :: "('rep, 'd, 'm) libs \<Rightarrow> bytes \<Rightarrow> error + bytes" where
  "unzip L compressed =
     (case gzip_NewReader L compressed of
        Inl err \<Rightarrow> Inl err
      | Inr r \<Rightarrow>
          (case gzip_ReadAll L r of
             Inl err \<Rightarrow> Inl err
           | Inr jsonAsBytes \<Rightarrow> Inr jsonAsBytes))"

definition decodeAndUnzip :: "('rep, 'd, 'm) libs \<Rightarrow> string \<Rightarrow> error + bytes" where
  "decodeAndUnzip L encoded =
     (let (decoded, _) = base64_DecodeString L encoded
      in unzip L decoded)"

subsection \<open>The default provider\<close>

text \<open>
  \<open>BasicRemoteFlowProvider.GetFlow\<close>, in two parts: the branch on the scheme, which
  computes \<open>flowDefBytes\<close> or leaves the function, and the parse of the bytes.
  The error of \<open>http.NewRequest\<close> is overwritten by the next assignment before anything
  reads it; the request goes to \<open>client.Do\<close> as it is, nil when the error was set.
\<close>

definition uriSchemeFile :: string where
  "uriSchemeFile = ''file://''"

definition uriSchemeRes :: string where
  "uriSchemeRes = ''res://''"

definition fetch_file :: "('rep, 'd, 'm) libs \<Rightarrow> 'z io_scheme \<Rightarrow> string \<Rightarrow> bytes res" where
  "fetch_file L W flowURI =
     (let flowFilePath = URLStringToFilePath W flowURI in
      case ReadFile W flowFilePath of
        Inl err \<Rightarrow>
          Err (Errorf (''error reading flow with uri '' @ [CHR 0x27] @ flowURI @ [CHR 0x27] @ '', '' @ Error_msg err))
      | Inr readBytes \<Rightarrow>
          (case at readBytes 0 of
             Panic p \<Rightarrow> Panic p
           | Err e \<Rightarrow> Err e
           | Val b0 \<Rightarrow>
               if b0 = 0x1f then
                 (case at readBytes 2 of
                    Panic p \<Rightarrow> Panic p
                  | Err e \<Rightarrow> Err e
                  | Val b2 \<Rightarrow>
                      if b2 = 0x8b then
                        (case unzip L readBytes of
                           Inl err \<Rightarrow>
                             Err (Errorf (''error uncompressing flow with uri '' @ [CHR 0x27] @ flowURI @ [CHR 0x27] @ '', '' @ Error_msg err))
                         | Inr flowDefBytes \<Rightarrow> Val flowDefBytes)
                      else Val readBytes)
               else Val readBytes))"

text \<open>
  \<open>client.Do\<close> reads \<open>req.URL\<close> before anything else: on a nil request that is a nil
  pointer dereference.
\<close>

definition Client_Do :: "'z io_scheme \<Rightarrow> Request option \<Rightarrow> Response res" where
  "Client_Do W req =
     (case req of
        None \<Rightarrow> Panic NilPointerDereference
      | Some r \<Rightarrow> (case client_Do W r of Inl err \<Rightarrow> Err err | Inr resp \<Rightarrow> Val resp))"

definition fetch_http :: "('rep, 'd, 'm) libs \<Rightarrow> 'z io_scheme \<Rightarrow> string \<Rightarrow> bytes res" where
  "fetch_http L W flowURI =
     (let (req, err) = http_NewRequest W ''GET'' flowURI in
      case Client_Do W req of
        Panic p \<Rightarrow> Panic p
      | Err err \<Rightarrow>
          Err (Errorf (''error getting flow with uri '' @ [CHR 0x27] @ flowURI @ [CHR 0x27] @ '', '' @ Error_msg err))
      | Val resp \<Rightarrow>
          if StatusCode resp \<ge> 300 then
            Err (Errorf (''error getting flow with uri '' @ [CHR 0x27] @ flowURI @ [CHR 0x27] @ '', status code '' @ fmt_d (StatusCode resp)))
          else
            (case Body resp of
               Inl err \<Rightarrow>
                 Err (Errorf (''error reading flow response body with uri '' @ [CHR 0x27] @ flowURI @ [CHR 0x27] @ '', '' @ Error_msg err))
             | Inr body \<Rightarrow>
                 (let val = Header_Get (Header resp) ''flow-compressed'' in
                  if strings_ToLower val = ''true'' then
                    (case decodeAndUnzip L (string_of_bytes body) of
                       Inl err \<Rightarrow>
                         Err (Errorf (''error decoding compressed flow with uri '' @ [CHR 0x27] @ flowURI @ [CHR 0x27] @ '', '' @ Error_msg err))
                     | Inr decodedBytes \<Rightarrow> Val decodedBytes)
                  else Val body)))"

definition BasicRemoteFlowProvider_GetFlow ::
  "('rep, 'd, 'm) libs \<Rightarrow> 'z io_scheme \<Rightarrow> string \<Rightarrow> 'rep res" where
  "BasicRemoteFlowProvider_GetFlow L W flowURI =
     (case (if prefix uriSchemeFile flowURI then fetch_file L W flowURI else fetch_http L W flowURI) of
        Panic p \<Rightarrow> Panic p
      | Err e \<Rightarrow> Err e
      | Val flowDefBytes \<Rightarrow>
          (case json_Unmarshal L flowDefBytes of
             Inl err \<Rightarrow>
               Err (Errorf (''error marshalling flow with uri '' @ [CHR 0x27] @ flowURI @ [CHR 0x27] @ '', '' @ Error_msg err))
           | Inr flow \<Rightarrow> Val flow))"

subsection \<open>The flow manager\<close>

text \<open>
  The struct \<open>FlowManager\<close>. A Go map that was never made is nil: \<open>remoteFlows\<close> is
  \<open>None\<close> until the first remote \<open>GetFlow\<close>. The provider is an interface value; a
  call of it reads and may change the world, and returns, fails or panics. The mutex
  \<open>rfMu\<close> is held from the first look at \<open>remoteFlows\<close> to the return of \<open>GetFlow\<close>,
  so the remote part of two calls never overlaps and a call is one step of the model.
\<close>

type_synonym ('rep, 'w) Provider = "string \<Rightarrow> 'w \<Rightarrow> 'rep res \<times> 'w"

record ('rep, 'd, 'm, 'w) FlowManager =
  resFlows :: "string \<rightharpoonup> ('d, 'm) Definition"
  remoteFlows :: "(string \<rightharpoonup> ('d, 'm) Definition) option"
  flowProvider :: "('rep, 'w) Provider"

record Config =
  ID :: string
  Data :: bytes
  Compressed :: bool

text \<open>
  The manager together with the world its provider works on, and a trace that records
  the two events the cache properties speak about: a call of the provider for a URI, and
  the assignment \<open>rm.remoteFlows[uri] = flow\<close>.
\<close>

datatype event = Fetch string | Store string

record ('rep, 'd, 'm, 'w) state =
  rm :: "('rep, 'd, 'm, 'w) FlowManager"
  world :: 'w
  trace :: "event list"

definition basicProvider :: "('rep, 'd, 'm) libs \<Rightarrow> ('rep, 'z io_scheme) Provider" where
  "basicProvider L uri W = (BasicRemoteFlowProvider_GetFlow L W uri, W)"

definition NewFlowManager ::
  "('rep, 'd, 'm) libs \<Rightarrow> ('rep, 'z io_scheme) Provider option \<Rightarrow> ('rep, 'd, 'm, 'z io_scheme) FlowManager" where
  "NewFlowManager L provider =
     \<lparr>resFlows = Map.empty,
      remoteFlows = None,
      flowProvider = (case provider of Some p \<Rightarrow> p | None \<Rightarrow> basicProvider L)\<rparr>"

definition materializeFlow :: "('rep, 'd, 'm) libs \<Rightarrow> 'rep \<Rightarrow> error + ('d, 'm) Definition" where
  "materializeFlow L flowRep =
     (case NewDefinition L flowRep of
        Inl err \<Rightarrow> Inl (Errorf (''error unmarshalling flow: '' @ Error_msg err))
      | Inr def \<Rightarrow>
          (let factory = (case GetLinkExprManagerFactory L of
                            None \<Rightarrow> GosLinkExprManagerFactory L
                          | Some f \<Rightarrow> f)
           in Inr (SetLinkExprManager def (factory def))))"

definition LoadResource ::
  "('rep, 'd, 'm) libs \<Rightarrow> Config \<Rightarrow> ('rep, 'd, 'm, 'w) state \<Rightarrow> error option \<times> ('rep, 'd, 'm, 'w) state" where
  "LoadResource L config s =
     (case (if Compressed config then
              (case decodeAndUnzip L (string_of_bytes (Data config)) of
                 Inl err \<Rightarrow>
                   Inl (Errorf (''error decoding compressed resource with id '' @ [CHR 0x27] @ ID config @ [CHR 0x27] @ '', '' @ Error_msg err))
               | Inr decodedBytes \<Rightarrow> Inr decodedBytes)
            else Inr (Data config)) of
        Inl e \<Rightarrow> (Some e, s)
      | Inr flowDefBytes \<Rightarrow>
          (case json_Unmarshal L flowDefBytes of
             Inl err \<Rightarrow>
               (Some (Errorf (''error marshalling flow resource with id '' @ [CHR 0x27] @ ID config @ [CHR 0x27] @ '', '' @ Error_msg err)), s)
           | Inr defRep \<Rightarrow>
               (case materializeFlow L defRep of
                  Inl err \<Rightarrow> (Some err, s)
                | Inr flow \<Rightarrow>
                    (None, s\<lparr>rm := (rm s)\<lparr>resFlows := (resFlows (rm s))(ID config \<mapsto> flow)\<rparr>\<rparr>))))"

definition GetResource :: "string \<Rightarrow> ('rep, 'd, 'm, 'w) state \<Rightarrow> ('d, 'm) Definition option" where
  "GetResource rid s = resFlows (rm s) rid"

text \<open>
  \<open>GetFlow\<close> returns a pointer and an error; the pointer is nil (\<open>None\<close>) when a
  \<open>res://\<close> id is unknown. A panic of the provider unwinds \<open>GetFlow\<close>; the deferred
  unlock runs and nothing is stored.
\<close>

definition GetFlow ::
  "('rep, 'd, 'm) libs \<Rightarrow> string \<Rightarrow> ('rep, 'd, 'm, 'w) state
     \<Rightarrow> ('d, 'm) Definition option res \<times> ('rep, 'd, 'm, 'w) state" where
  "GetFlow L uri s =
     (if prefix uriSchemeRes uri then (Val (resFlows (rm s) (drop 6 uri)), s)
      else
        (let remote = (case remoteFlows (rm s) of None \<Rightarrow> Map.empty | Some m \<Rightarrow> m);
             s1 = s\<lparr>rm := (rm s)\<lparr>remoteFlows := Some remote\<rparr>\<rparr>
         in case remote uri of
              Some flow \<Rightarrow> (Val (Some flow), s1)
            | None \<Rightarrow>
                (let (r, w) = flowProvider (rm s1) uri (world s1);
                     s2 = s1\<lparr>world := w, trace := trace s1 @ [Fetch uri]\<rparr>
                 in case r of
                      Panic p \<Rightarrow> (Panic p, s2)
                    | Err err \<Rightarrow> (Err err, s2)
                    | Val defRep \<Rightarrow>
                        (case materializeFlow L defRep of
                           Inl err \<Rightarrow> (Err err, s2)
                         | Inr flow \<Rightarrow>
                             (Val (Some flow),
                              s2\<lparr>rm := (rm s2)\<lparr>remoteFlows := Some (remote(uri \<mapsto> flow))\<rparr>,
                                 trace := trace s2 @ [Store uri]\<rparr>)))))"

text \<open>The remote cache as a lookup: a nil map has no entries.\<close>

definition remote_lookup :: "('rep, 'd, 'm, 'w) state \<Rightarrow> string \<Rightarrow> ('d, 'm) Definition option" where
  "remote_lookup s uri = (case remoteFlows (rm s) of None \<Rightarrow> None | Some m \<Rightarrow> m uri)"

text \<open>Sequences of calls on one manager, from the manager that \<open>NewFlowManager\<close> builds.\<close>

datatype call = CallGetFlow string | CallLoadResource Config

fun step :: "('rep, 'd, 'm) libs \<Rightarrow> ('rep, 'd, 'm, 'w) state \<Rightarrow> call \<Rightarrow> ('rep, 'd, 'm, 'w) state" where
  "step L s (CallGetFlow uri) = snd (GetFlow L uri s)"
| "step L s (CallLoadResource config) = snd (LoadResource L config s)"

definition run :: "('rep, 'd, 'm) libs \<Rightarrow> call list \<Rightarrow> ('rep, 'd, 'm, 'w) state \<Rightarrow> ('rep, 'd, 'm, 'w) state" where
  "run L calls s = foldl (step L) s calls"

definition init :: "('rep, 'd, 'm) libs \<Rightarrow> ('rep, 'z io_scheme) Provider option \<Rightarrow> 'z io_scheme
     \<Rightarrow> ('rep, 'd, 'm, 'z io_scheme) state" where
  "init L provider W = \<lparr>rm = NewFlowManager L provider, world = W, trace = []\<rparr>"

subsection \<open>An instance of the libraries and of the world\<close>

text \<open>
  The theorems below hold for every value of the parameters. To run the functions on
  concrete inputs the parameters need values; these are the ones used:
  \<^item> \<open>StdEncoding_DecodeString\<close>: the standard base64 alphabet with padding, read one
    quantum of four characters at a time; carriage returns and line feeds are skipped;
    at the first character that is not allowed the bytes of the quanta before it are
    returned together with the error. \<open>StdEncoding_EncodeToString\<close> is the encoder
    that goes with it;
  \<^item> \<open>demo_NewReader\<close>, \<open>demo_ReadAll\<close>: a gzip reader for one member without optional
    header fields whose deflate stream consists of stored blocks, with the CRC-32 and
    the length of the trailer checked; anything else is reported as an error.
    \<open>gzip_store\<close> is a writer of such members;
  \<^item> \<open>demo_Unmarshal\<close>: the representation of a flow is the text of a JSON object,
    recognised by its braces only; \<open>NewDefinition\<close> accepts every representation;
  \<^item> \<open>demo_io\<close>: three files and two URLs that answer; \<open>http.NewRequest\<close> rejects a
    URL that begins with a colon.
  The bytes \<open>flow_gz\<close> are the output of a gzip tool at level 0 on the two bytes
  \<open>{}\<close>, and \<open>flow_gz_b64\<close> is their base64 text.
\<close>

definition decodeMap :: "char \<Rightarrow> nat option" where
  "decodeMap c =
     (let n = (of_char c :: nat) in
      if 65 \<le> n \<and> n \<le> 90 then Some (n - 65)
      else if 97 \<le> n \<and> n \<le> 122 then Some (n - 71)
      else if 48 \<le> n \<and> n \<le> 57 then Some (n + 4)
      else if n = 43 then Some 62
      else if n = 47 then Some 63
      else None)"

definition isNewline :: "char \<Rightarrow> bool" where
  "isNewline c = (c = CHR 0x0A \<or> c = CHR 0x0D)"

definition quantumBytes :: "nat list \<Rightarrow> bytes" where
  "quantumBytes dbuf =
     (let d = dbuf @ replicate (4 - length dbuf) 0;
          val = (d ! 0) * 262144 + (d ! 1) * 4096 + (d ! 2) * 64 + (d ! 3)
      in take (length dbuf - 1) [of_nat (val div 65536), of_nat (val div 256), of_nat val])"

fun skipNewlines :: "nat \<Rightarrow> string \<Rightarrow> nat \<times> string" where
  "skipNewlines si [] = (si, [])"
| "skipNewlines si (c # src) = (if isNewline c then skipNewlines (Suc si) src else (si, c # src))"

definition endOfPadding :: "nat list \<Rightarrow> nat \<Rightarrow> string \<Rightarrow> nat \<times> string \<times> bytes \<times> error option" where
  "endOfPadding dbuf si src =
     (let (si1, src1) = skipNewlines si src
      in (si1, src1, quantumBytes dbuf, if src1 = [] then None else Some (CorruptInputError si1)))"

fun decodeQuantum :: "nat list \<Rightarrow> nat \<Rightarrow> string \<Rightarrow> nat \<times> string \<times> bytes \<times> error option" where
  "decodeQuantum dbuf si [] =
     (if dbuf = [] then (si, [], [], None)
      else (si, [], [], Some (CorruptInputError (si - length dbuf))))"
| "decodeQuantum dbuf si (c # src) =
     (case decodeMap c of
        Some out \<Rightarrow>
          if length dbuf = 3 then (Suc si, src, quantumBytes (dbuf @ [out]), None)
          else decodeQuantum (dbuf @ [out]) (Suc si) src
      | None \<Rightarrow>
          if isNewline c then decodeQuantum dbuf (Suc si) src
          else if c \<noteq> CHR ''='' then (Suc si, src, [], Some (CorruptInputError si))
          else if length dbuf < 2 then (Suc si, src, [], Some (CorruptInputError si))
          else if length dbuf = 2 then
            (let (si1, src1) = skipNewlines (Suc si) src
             in case src1 of
                  [] \<Rightarrow> (si1, src1, [], Some (CorruptInputError si1))
                | c1 # src2 \<Rightarrow>
                    if c1 \<noteq> CHR ''='' then (si1, src1, [], Some (CorruptInputError (si1 - 1)))
                    else endOfPadding dbuf (Suc si1) src2)
          else endOfPadding dbuf (Suc si) src)"

fun Decode :: "nat \<Rightarrow> nat \<Rightarrow> string \<Rightarrow> bytes \<times> error option" where
  "Decode 0 si src = ([], None)"
| "Decode (Suc fuel) si src =
     (if src = [] then ([], None)
      else
        (let (si1, src1, out, err) = decodeQuantum [] si src
         in case err of
              Some e \<Rightarrow> (out, Some e)
            | None \<Rightarrow> (let (out1, err1) = Decode fuel si1 src1 in (out @ out1, err1))))"

definition StdEncoding_DecodeString :: "string \<Rightarrow> bytes \<times> error option" where
  "StdEncoding_DecodeString s = Decode (length s) 0 s"

text \<open>
  The encoder that goes with the decoder (\<open>base64.StdEncoding.EncodeToString\<close>): three
  bytes become four characters, and the last group is padded.
\<close>

definition encodeChar :: "nat \<Rightarrow> char" where
  "encodeChar v =
     (if v < 26 then char_of (65 + v)
      else if v < 52 then char_of (71 + v)
      else if v < 62 then char_of (v - 4)
      else if v = 62 then CHR ''+''
      else CHR ''/'')"



definition le16 :: "bytes \<Rightarrow> nat" where
  "le16 bs = unat (bs ! 0) + 256 * unat (bs ! 1)"

definition le32 :: "bytes \<Rightarrow> nat" where
  "le32 bs = le16 bs + 65536 * le16 (drop 2 bs)"

definition crc_bit :: "32 word \<Rightarrow> 32 word" where
  "crc_bit c = (if bit c 0 then drop_bit 1 c XOR 0xEDB88320 else drop_bit 1 c)"

definition crc_byte :: "32 word \<Rightarrow> byte \<Rightarrow> 32 word" where
  "crc_byte c b =
     crc_bit (crc_bit (crc_bit (crc_bit (crc_bit (crc_bit (crc_bit (crc_bit (c XOR ucast b))))))))"

definition crc32 :: "bytes \<Rightarrow> 32 word" where
  "crc32 bs = foldl crc_byte 0xFFFFFFFF bs XOR 0xFFFFFFFF"

definition demo_NewReader :: "bytes \<Rightarrow> error + bytes" where
  "demo_NewReader buf =
     (if buf = [] then Inl (LibError ''EOF'')
      else if length buf < 10 then Inl (LibError ''unexpected EOF'')
      else if buf ! 0 \<noteq> 0x1f \<or> buf ! 1 \<noteq> 0x8b \<or> buf ! 2 \<noteq> 8 then Inl (LibError ''gzip: invalid header'')
      else if buf ! 3 \<noteq> 0 then Inl (LibError ''optional header fields: not part of this instance'')
      else Inr (drop 10 buf))"

fun inflate :: "bytes \<Rightarrow> error + bytes \<times> bytes" where
  "inflate [] = Inl (LibError ''unexpected EOF'')"
| "inflate (h # rest) =
     (if drop_bit 1 h AND 3 = 3 then Inl (LibError ''flate: corrupt input'')
      else if drop_bit 1 h AND 3 \<noteq> 0 then Inl (LibError ''compressed blocks: not part of this instance'')
      else if length rest < 4 then Inl (LibError ''unexpected EOF'')
      else if le16 rest + le16 (drop 2 rest) \<noteq> 65535 then Inl (LibError ''flate: corrupt input'')
      else if length rest < 4 + le16 rest then Inl (LibError ''unexpected EOF'')
      else if bit h 0 then Inr (take (le16 rest) (drop 4 rest), drop (4 + le16 rest) rest)
      else
        (case inflate (drop (4 + le16 rest) rest) of
           Inl e \<Rightarrow> Inl e
         | Inr (d, r) \<Rightarrow> Inr (take (le16 rest) (drop 4 rest) @ d, r)))"

definition demo_ReadAll :: "bytes \<Rightarrow> error + bytes" where
  "demo_ReadAll r =
     (case inflate r of
        Inl e \<Rightarrow> Inl e
      | Inr (d, trailer) \<Rightarrow>
          if length trailer < 8 then Inl (LibError ''unexpected EOF'')
          else if le32 trailer \<noteq> unat (crc32 d) \<or> le32 (drop 4 trailer) \<noteq> length d mod 4294967296
            then Inl (LibError ''gzip: invalid checksum'')
          else if drop 8 trailer \<noteq> [] then Inl (LibError ''further members: not part of this instance'')
          else Inr d)"

text \<open>
  A gzip writer that the reader above accepts: the header, the data in stored blocks of
  at most 65535 bytes, the CRC-32 and the length.
\<close>

definition enc16 :: "nat \<Rightarrow> bytes" where
  "enc16 n = [of_nat n, of_nat (n div 256)]"

definition enc32 :: "nat \<Rightarrow> bytes" where
  "enc32 n = enc16 (n mod 65536) @ enc16 (n div 65536)"




definition demo_Unmarshal :: "bytes \<Rightarrow> error + bytes" where
  "demo_Unmarshal data =
     (if data = [] then Inl (LibError ''unexpected end of JSON input'')
      else if hd data = 0x7b \<and> last data = 0x7d then Inr data
      else Inl (LibError ''invalid character''))"

definition demo_libs :: "(bytes, bytes, string) libs" where
  "demo_libs =
     \<lparr>base64_DecodeString = StdEncoding_DecodeString,
      gzip_NewReader = demo_NewReader,
      gzip_ReadAll = demo_ReadAll,
      json_Unmarshal = demo_Unmarshal,
      NewDefinition = (\<lambda>rep. Inr \<lparr>def_body = rep, linkExprMgr = None\<rparr>),
      GetLinkExprManagerFactory = None,
      GosLinkExprManagerFactory = (\<lambda>_. ''gos'')\<rparr>"

definition flow_json :: bytes where
  "flow_json = [0x7b, 0x7d]"

definition flow_gz :: bytes where
  "flow_gz = [31, 139, 8, 0, 0, 0, 0, 0, 4, 3, 1, 2, 0, 253, 255, 123, 125, 67, 191, 166, 163, 2, 0, 0, 0]"

definition flow_gz_b64 :: string where
  "flow_gz_b64 = ''H4sIAAAAAAAEAwECAP3/e31Dv6ajAgAAAA==''"

definition demo_ReadFile :: "string \<Rightarrow> error + bytes" where
  "demo_ReadFile path =
     (if path = ''/flows/main.json'' then Inr flow_json
      else if path = ''/flows/empty.json'' then Inr []
      else if path = ''/flows/short.json'' then Inr [0x1f, 0x8b]
      else Inl (LibError (''open '' @ path @ '': no such file or directory'')))"

definition demo_NewRequest :: "string \<Rightarrow> string \<Rightarrow> Request option \<times> error option" where
  "demo_NewRequest method url =
     (if take 1 url = '':'' then (None, Some (LibError (''parse '' @ url @ '': missing protocol scheme'')))
      else (Some \<lparr>req_Method = method, req_URL = url\<rparr>, None))"

definition compressed_response :: Response where
  "compressed_response =
     \<lparr>Status = ''200 OK'', StatusCode = 200,
      Header = (\<lambda>key. if key = ''Flow-Compressed'' then [''True''] else []),
      Body = Inr (bytes_of_string flow_gz_b64)\<rparr>"

definition plain_response :: Response where
  "plain_response =
     \<lparr>Status = ''200 OK'', StatusCode = 200, Header = (\<lambda>key. []), Body = Inr flow_json\<rparr>"

definition demo_Do :: "Request \<Rightarrow> error + Response" where
  "demo_Do req =
     (if req_URL req = ''http://flows.example/compressed'' then Inr compressed_response
      else if req_URL req = ''http://flows.example/plain'' then Inr plain_response
      else Inl (LibError (''Get '' @ req_URL req @ '': dial tcp: no such host'')))"

definition demo_io :: io where
  "demo_io =
     \<lparr>URLStringToFilePath = drop 7,
      ReadFile = demo_ReadFile,
      http_NewRequest = demo_NewRequest,
      client_Do = demo_Do\<rparr>"

text \<open>A second instance, whose \<open>NewDefinition\<close> rejects every representation.\<close>

definition strict_libs :: "(bytes, bytes, string) libs" where
  "strict_libs = demo_libs\<lparr>NewDefinition := (\<lambda>rep. Inl (LibError ''flow without tasks''))\<rparr>"

text \<open>Two resource configurations with the same id, one with another id.\<close>

definition cfg_main :: Config where
  "cfg_main = \<lparr>ID = ''main'', Data = flow_json, Compressed = False\<rparr>"

definition cfg_main_again :: Config where
  "cfg_main_again = \<lparr>ID = ''main'', Data = [0x7b, 0x20, 0x7d], Compressed = False\<rparr>"

definition cfg_other :: Config where
  "cfg_other = \<lparr>ID = ''other'', Data = bytes_of_string flow_gz_b64, Compressed = True\<rparr>"

text \<open>
  A manager with the default provider after \<open>LoadResource\<close> of the first configuration
  and \<open>GetFlow\<close> of a file URI, and the definition both calls materialize.
\<close>

definition main_uri :: string where
  "main_uri = ''file:///flows/main.json''"

definition main_def :: "(bytes, string) Definition" where
  "main_def = \<lparr>def_body = flow_json, linkExprMgr = Some ''gos''\<rparr>"

definition loaded_state :: "(bytes, bytes, string, io) state" where
  "loaded_state =
     run demo_libs [CallLoadResource cfg_main, CallGetFlow main_uri] (init demo_libs None demo_io)"

subsection \<open>What the properties speak about\<close>

text \<open>
  A definition is materialized when \<open>materializeFlow\<close> has attached a link-expression
  manager to it.
\<close>

definition materialized :: "('d, 'm) Definition \<Rightarrow> bool" where
  "materialized def = (linkExprMgr def \<noteq> None)"

definition caches_materialized :: "('rep, 'd, 'm, 'w) state \<Rightarrow> bool" where
  "caches_materialized s =
     ((\<forall>rid def. resFlows (rm s) rid = Some def \<longrightarrow> materialized def)
      \<and> (\<forall>uri def. remote_lookup s uri = Some def \<longrightarrow> materialized def))"

text \<open>
  The discipline of a trace, read from the left with the set S of the URIs stored so far:
  a URI of S is neither fetched nor stored again.
\<close>

fun no_fetch_after_store :: "string set \<Rightarrow> event list \<Rightarrow> bool" where
  "no_fetch_after_store S [] = True"
| "no_fetch_after_store S (Fetch u # es) = (u \<notin> S \<and> no_fetch_after_store S es)"
| "no_fetch_after_store S (Store u # es) = (u \<notin> S \<and> no_fetch_after_store (insert u S) es)"

definition stored :: "event list \<Rightarrow> string set" where
  "stored es = {u. Store u \<in> set es}"

definition trace_inv :: "('rep, 'd, 'm, 'w) state \<Rightarrow> bool" where
  "trace_inv s = (no_fetch_after_store {} (trace s)
     \<and> (\<forall>u \<in> stored (trace s). remote_lookup s u \<noteq> None))"

text \<open>
  The specification's reading of the compression flag, in its own words: the value
  equals \<open>true\<close> up to the case of its letters. It is compared below with what the code
  computes, \<open>strings.ToLower(val) == "true"\<close>.
\<close>

definition equal_true_ignoring_case :: "string \<Rightarrow> bool" where
  "equal_true_ignoring_case val =
     (case val of
        [a, b, c, d] \<Rightarrow>
          (a = CHR ''t'' \<or> a = CHR ''T'') \<and> (b = CHR ''r'' \<or> b = CHR ''R'')
          \<and> (c = CHR ''u'' \<or> c = CHR ''U'') \<and> (d = CHR ''e'' \<or> d = CHR ''E'')
      | _ \<Rightarrow> False)"

section \<open>Properties\<close>

lemmas demo_eval =
  demo_libs_def StdEncoding_DecodeString_def quantumBytes_def decodeMap_def endOfPadding_def
  isNewline_def demo_NewReader_def demo_ReadAll_def le16_def le32_def crc32_def crc_byte_def
  crc_bit_def demo_Unmarshal_def flow_json_def flow_gz_def flow_gz_b64_def
  demo_io_def demo_ReadFile_def demo_NewRequest_def demo_Do_def
  compressed_response_def plain_response_def
  cfg_main_def cfg_main_again_def main_uri_def main_def_def

lemmas code_eval =
  unzip_def decodeAndUnzip_def fetch_file_def fetch_http_def Client_Do_def
  BasicRemoteFlowProvider_GetFlow_def basicProvider_def at_def Header_Get_def
  uriSchemeFile_def uriSchemeRes_def materializeFlow_def SetLinkExprManager_def
  GetFlow_def LoadResource_def GetResource_def remote_lookup_def
  init_def NewFlowManager_def run_def Let_def
  string_of_bytes_def bytes_of_string_def strings_ToLower_def toLower_byte_def
  toUpper_byte_def validHeaderFieldByte_def CanonicalMIMEHeaderKey_def
  char_of_def bit_Suc_0_iff

subsection \<open>GetFlow: the res scheme\<close>

text \<open>
  C2. For every uri that begins with \<open>res://\<close>, \<open>GetFlow\<close> returns the entry of the
  preloaded map under the uri without its first six characters, with no error, also when
  there is no such entry (the result is then nil); the provider is not called and
  nothing else changes: the state after the call, its trace included, is the state
  before it.
\<close>

theorem GetFlow_res_scheme:
  assumes "prefix uriSchemeRes uri"
  shows "GetFlow L uri s = (Val (GetResource (drop 6 uri) s), s)"
  using assms by (simp add: GetFlow_def GetResource_def)

theorem GetFlow_res_scheme_witness:
  "prefix uriSchemeRes ''res://missing''
   \<and> GetFlow demo_libs ''res://missing'' (init demo_libs None demo_io)
       = (Val None, init demo_libs None demo_io)"
proof -
  have h: "prefix uriSchemeRes ''res://missing''"
    by (simp add: uriSchemeRes_def)
  have "GetResource (drop 6 ''res://missing'') (init demo_libs None demo_io) = None"
    by (simp add: GetResource_def init_def NewFlowManager_def)
  with h GetFlow_res_scheme [OF h, of demo_libs "init demo_libs None demo_io"]
  show ?thesis by simp
qed

subsection \<open>GetFlow: the remote cache\<close>

lemma remote_lookup_hit:
  assumes "\<not> prefix uriSchemeRes uri" and "remote_lookup s uri = Some d"
  shows "GetFlow L uri s = (Val (Some d), s)"
  using assms by (auto simp: GetFlow_def remote_lookup_def Let_def split: option.splits)

lemma GetFlow_Val_cached:
  assumes "\<not> prefix uriSchemeRes uri" and "GetFlow L uri s0 = (Val r, s)"
  shows "\<exists>d. r = Some d \<and> remote_lookup s uri = Some d"
  using assms
  by (auto simp: GetFlow_def remote_lookup_def Let_def
      split: option.splits prod.splits res.splits sum.splits)

lemma GetFlow_trace:
  "\<exists>ev. trace (snd (GetFlow L uri s)) = trace s @ ev
     \<and> (ev = [] \<or> ev = [Fetch uri] \<or> ev = [Fetch uri, Store uri])"
  by (auto simp: GetFlow_def Let_def split: option.splits prod.splits res.splits sum.splits)

lemma GetFlow_keeps_remote:
  assumes "remote_lookup s u = Some d"
  shows "remote_lookup (snd (GetFlow L uri s)) u = Some d"
  using assms
  by (auto simp: GetFlow_def remote_lookup_def Let_def
      split: option.splits prod.splits res.splits sum.splits)

lemma GetFlow_no_fetch_when_cached:
  assumes "remote_lookup s u = Some d"
  shows "\<exists>ev. trace (snd (GetFlow L uri s)) = trace s @ ev \<and> Fetch u \<notin> set ev \<and> Store u \<notin> set ev"
  using assms
  by (auto simp: GetFlow_def remote_lookup_def Let_def
      split: option.splits prod.splits res.splits sum.splits)

lemma GetFlow_keeps_resFlows:
  "resFlows (rm (snd (GetFlow L uri s))) = resFlows (rm s)"
  by (auto simp: GetFlow_def Let_def split: option.splits prod.splits res.splits sum.splits)

lemma LoadResource_remote:
  "remote_lookup (snd (LoadResource L config s)) u = remote_lookup s u"
  by (auto simp: LoadResource_def remote_lookup_def split: sum.splits)

lemma LoadResource_trace:
  "trace (snd (LoadResource L config s)) = trace s"
  by (auto simp: LoadResource_def split: sum.splits)

lemma step_keeps_remote:
  assumes "remote_lookup s u = Some d"
  shows "remote_lookup (step L s c) u = Some d"
  using assms by (cases c) (simp_all add: GetFlow_keeps_remote LoadResource_remote)

lemma step_no_fetch_when_cached:
  assumes "remote_lookup s u = Some d"
  shows "\<exists>ev. trace (step L s c) = trace s @ ev \<and> Fetch u \<notin> set ev \<and> Store u \<notin> set ev"
  using assms by (cases c) (simp_all add: GetFlow_no_fetch_when_cached LoadResource_trace)

lemma run_Cons: "run L (c # calls) s = run L calls (step L s c)"
  by (simp add: run_def)

lemma run_cached:
  assumes "remote_lookup s u = Some d"
  shows "remote_lookup (run L calls s) u = Some d \<and>
         (\<exists>ev. trace (run L calls s) = trace s @ ev \<and> Fetch u \<notin> set ev \<and> Store u \<notin> set ev)"
  using assms
proof (induction calls arbitrary: s)
  case Nil
  then show ?case by (simp add: run_def)
next
  case (Cons c calls)
  from Cons.prems have 1: "remote_lookup (step L s c) u = Some d"
    by (rule step_keeps_remote)
  from Cons.prems obtain ev1 where 2: "trace (step L s c) = trace s @ ev1"
      "Fetch u \<notin> set ev1" "Store u \<notin> set ev1"
    using step_no_fetch_when_cached by blast
  from Cons.IH [OF 1] obtain ev2 where 3: "remote_lookup (run L calls (step L s c)) u = Some d"
      "trace (run L calls (step L s c)) = trace (step L s c) @ ev2"
      "Fetch u \<notin> set ev2" "Store u \<notin> set ev2"
    by blast
  from 2 3 have "trace (run L (c # calls) s) = trace s @ (ev1 @ ev2)"
      "Fetch u \<notin> set (ev1 @ ev2)" "Store u \<notin> set (ev1 @ ev2)"
    by (simp_all add: run_Cons)
  with 3(1) show ?case
    unfolding run_Cons by blast
qed

lemma run_append: "run L (xs @ ys) s = run L ys (run L xs s)"
  by (simp add: run_def)

lemma stored_simps [simp]:
  "stored [] = {}" "stored (Fetch u # es) = stored es" "stored (Store u # es) = insert u (stored es)"
  by (auto simp: stored_def)

lemma no_fetch_after_store_append:
  "no_fetch_after_store S (es @ ev) \<longleftrightarrow>
     no_fetch_after_store S es \<and> no_fetch_after_store (S \<union> stored es) ev"
proof (induction es arbitrary: S)
  case Nil
  then show ?case by simp
next
  case (Cons e es)
  then show ?case
    by (cases e) (auto simp: insert_commute Un_commute)
qed

lemma no_fetch_after_store_split:
  assumes "no_fetch_after_store S (pre @ Store u # post)"
  shows "Fetch u \<notin> set post \<and> Store u \<notin> set post"
proof -
  have *: "no_fetch_after_store T es \<Longrightarrow> u \<in> T \<Longrightarrow> Fetch u \<notin> set es \<and> Store u \<notin> set es" for T es
  proof (induction es arbitrary: T)
    case Nil
    then show ?case by simp
  next
    case (Cons e es)
    then show ?case
      by (cases e) auto
  qed
  from assms have "no_fetch_after_store (insert u (S \<union> stored pre)) post"
    by (simp add: no_fetch_after_store_append)
  from * [OF this] show ?thesis by simp
qed

lemma GetFlow_trace_cases:
  "\<exists>ev. trace (snd (GetFlow L uri s)) = trace s @ ev
     \<and> (ev = []
         \<or> ev = [Fetch uri] \<and> remote_lookup s uri = None
         \<or> ev = [Fetch uri, Store uri] \<and> remote_lookup s uri = None
             \<and> remote_lookup (snd (GetFlow L uri s)) uri \<noteq> None)"
  by (auto simp: GetFlow_def remote_lookup_def Let_def
      split: option.splits prod.splits res.splits sum.splits)

lemma GetFlow_trace_inv:
  assumes "trace_inv s"
  shows "trace_inv (snd (GetFlow L uri s))"
proof -
  obtain ev where ev: "trace (snd (GetFlow L uri s)) = trace s @ ev"
    "ev = []
       \<or> ev = [Fetch uri] \<and> remote_lookup s uri = None
       \<or> ev = [Fetch uri, Store uri] \<and> remote_lookup s uri = None
           \<and> remote_lookup (snd (GetFlow L uri s)) uri \<noteq> None"
    using GetFlow_trace_cases by blast
  have keep: "remote_lookup (snd (GetFlow L uri s)) u \<noteq> None" if "remote_lookup s u \<noteq> None" for u
    using that GetFlow_keeps_remote [of s u _ L uri] by auto
  have st: "stored (trace s @ ev) = stored (trace s) \<union> stored ev"
    by (auto simp: stored_def)
  have fresh: "uri \<notin> stored (trace s)" if "remote_lookup s uri = None"
    using that assms by (auto simp: trace_inv_def)
  from ev(2) fresh have "no_fetch_after_store (stored (trace s)) ev"
    by auto
  moreover from ev(2) assms keep
  have "\<forall>u \<in> stored (trace s) \<union> stored ev. remote_lookup (snd (GetFlow L uri s)) u \<noteq> None"
    by (auto simp: trace_inv_def)
  ultimately show ?thesis
    using assms by (simp add: trace_inv_def ev(1) st no_fetch_after_store_append)
qed

lemma step_trace_inv:
  assumes "trace_inv s"
  shows "trace_inv (step L s c)"
proof (cases c)
  case (CallGetFlow uri)
  with assms show ?thesis by (simp add: GetFlow_trace_inv)
next
  case (CallLoadResource config)
  with assms show ?thesis
    by (simp add: trace_inv_def LoadResource_trace LoadResource_remote)
qed

lemma run_trace_inv:
  assumes "trace_inv s"
  shows "trace_inv (run L calls s)"
  using assms
proof (induction calls arbitrary: s)
  case Nil
  then show ?case by (simp add: run_def)
next
  case (Cons c calls)
  then show ?case
    unfolding run_Cons by (simp add: step_trace_inv)
qed

lemma fetches_of_a_new_manager:
  "no_fetch_after_store {} (trace (run L calls (init L provider W)))"
proof -
  have "trace_inv (init L provider W)"
    by (simp add: trace_inv_def init_def)
  then have "trace_inv (run L calls (init L provider W))"
    by (rule run_trace_inv)
  then show ?thesis
    by (simp add: trace_inv_def)
qed

text \<open>
  C1, as the claim states it, fails: a fetch that fails stores nothing, so the next
  \<open>GetFlow\<close> with the same URI invokes the provider again. Three calls for a URI that
  no server answers are three fetches of it.
\<close>

theorem failed_fetch_repeated_counterexample:
  "trace (run demo_libs
       [CallGetFlow ''http://unreachable.invalid/flow'', CallGetFlow ''http://unreachable.invalid/flow'',
        CallGetFlow ''http://unreachable.invalid/flow'']
       (init demo_libs None demo_io))
     = [Fetch ''http://unreachable.invalid/flow'', Fetch ''http://unreachable.invalid/flow'',
        Fetch ''http://unreachable.invalid/flow'']
   \<and> length (filter (\<lambda>e. e = Fetch ''http://unreachable.invalid/flow'')
       (trace (run demo_libs
          [CallGetFlow ''http://unreachable.invalid/flow'', CallGetFlow ''http://unreachable.invalid/flow'',
           CallGetFlow ''http://unreachable.invalid/flow'']
          (init demo_libs None demo_io)))) = 3"
  by (simp add: demo_eval code_eval)

text \<open>
  C1, amended. A fetch that fails may be repeated; what holds is the part of the claim
  about a fetch that succeeds. Let uri not begin with \<open>res://\<close>, and let a call
  \<open>GetFlow(uri)\<close> on a manager with any history return a definition. That call invoked
  the provider for uri at most once, and the definition is now in the remote cache.
  After any further sequence of calls of \<open>GetFlow\<close> and \<open>LoadResource\<close>, with any
  arguments, the provider has not been invoked for uri again, \<open>GetFlow(uri)\<close> returns
  that same definition and leaves the state, its trace included, as it is; and in the
  whole history of the manager no URI was fetched or stored after it had been stored.
\<close>

theorem GetFlow_fetches_once:
  assumes "\<not> prefix uriSchemeRes uri"
    and "s0 = run L calls0 (init L provider W)"
    and "GetFlow L uri s0 = (Val r, s)"
  shows "\<exists>d ev0 ev. r = Some d
           \<and> trace s = trace s0 @ ev0 \<and> length (filter (\<lambda>e. e = Fetch uri) ev0) \<le> 1
           \<and> trace (run L calls s) = trace s @ ev \<and> Fetch uri \<notin> set ev
           \<and> GetFlow L uri (run L calls s) = (Val (Some d), run L calls s)
           \<and> no_fetch_after_store {} (trace (run L calls s))"
proof -
  from assms(1,3) obtain d where d: "r = Some d" "remote_lookup s uri = Some d"
    using GetFlow_Val_cached by blast
  obtain ev0 where ev0: "trace (snd (GetFlow L uri s0)) = trace s0 @ ev0"
      "ev0 = [] \<or> ev0 = [Fetch uri] \<or> ev0 = [Fetch uri, Store uri]"
    using GetFlow_trace by blast
  from ev0(2) have c: "length (filter (\<lambda>e. e = Fetch uri) ev0) \<le> 1"
    by auto
  from run_cached [OF d(2)] obtain ev where ev: "remote_lookup (run L calls s) uri = Some d"
      "trace (run L calls s) = trace s @ ev" "Fetch uri \<notin> set ev"
    by blast
  from remote_lookup_hit [OF assms(1) ev(1)]
  have hit: "GetFlow L uri (run L calls s) = (Val (Some d), run L calls s)" .
  from assms(3) have "s = step L s0 (CallGetFlow uri)"
    by simp
  with assms(2) have "run L calls s = run L (calls0 @ CallGetFlow uri # calls) (init L provider W)"
    by (simp add: run_append run_Cons)
  then have "no_fetch_after_store {} (trace (run L calls s))"
    by (simp only: fetches_of_a_new_manager)
  with d ev0 c ev hit assms(3) show ?thesis by auto
qed

theorem GetFlow_fetches_once_witness:
  "\<not> prefix uriSchemeRes main_uri
   \<and> fst (GetFlow demo_libs main_uri (run demo_libs [CallLoadResource cfg_main] (init demo_libs None demo_io)))
       = Val (Some main_def)
   \<and> trace (run demo_libs
         [CallGetFlow main_uri, CallGetFlow ''http://unreachable.invalid/flow'',
          CallLoadResource cfg_main_again, CallGetFlow main_uri]
         (snd (GetFlow demo_libs main_uri
            (run demo_libs [CallLoadResource cfg_main] (init demo_libs None demo_io)))))
       = [Fetch main_uri, Store main_uri, Fetch ''http://unreachable.invalid/flow'']
   \<and> fst (GetFlow demo_libs main_uri
         (run demo_libs
            [CallGetFlow main_uri, CallGetFlow ''http://unreachable.invalid/flow'',
             CallLoadResource cfg_main_again, CallGetFlow main_uri]
            (snd (GetFlow demo_libs main_uri
               (run demo_libs [CallLoadResource cfg_main] (init demo_libs None demo_io))))))
       = Val (Some main_def)
   \<and> no_fetch_after_store {} [Fetch main_uri, Store main_uri, Fetch ''http://unreachable.invalid/flow'']"
proof -
  let ?s0 = "run demo_libs [CallLoadResource cfg_main] (init demo_libs None demo_io)"
  let ?calls = "[CallGetFlow main_uri, CallGetFlow ''http://unreachable.invalid/flow'',
          CallLoadResource cfg_main_again, CallGetFlow main_uri]"
  have h1: "\<not> prefix uriSchemeRes main_uri"
    by (simp add: uriSchemeRes_def main_uri_def)
  have h2: "fst (GetFlow demo_libs main_uri ?s0) = Val (Some main_def)"
    by (simp add: demo_eval code_eval)
  then have h3: "GetFlow demo_libs main_uri ?s0 = (Val (Some main_def), snd (GetFlow demo_libs main_uri ?s0))"
    by (metis prod.collapse)
  have h4: "trace (run demo_libs ?calls (snd (GetFlow demo_libs main_uri ?s0)))
       = [Fetch main_uri, Store main_uri, Fetch ''http://unreachable.invalid/flow'']"
    by (simp add: demo_eval code_eval)
  from GetFlow_fetches_once [OF h1 refl h3, of ?calls] h1 h2 h4
  show ?thesis by auto
qed

lemma GetFlow_miss_fetches:
  assumes "\<not> prefix uriSchemeRes uri" and "remote_lookup s uri = None"
  shows "\<exists>ev. trace (snd (GetFlow L uri s)) = trace s @ Fetch uri # ev"
  using assms
  by (auto simp: GetFlow_def remote_lookup_def Let_def
      split: option.splits prod.splits res.splits sum.splits)

lemma GetFlow_failure:
  assumes "\<not> prefix uriSchemeRes uri"
    and "remote_lookup s uri = None"
    and "flowProvider (rm s) uri (world s) = (r, w)"
    and "r = Err e \<or> (\<exists>defRep. r = Val defRep \<and> materializeFlow L defRep = Inl e)"
  shows "fst (GetFlow L uri s) = Err e"
    and "remote_lookup (snd (GetFlow L uri s)) = remote_lookup s"
    and "trace (snd (GetFlow L uri s)) = trace s @ [Fetch uri]"
  using assms
  by (auto simp: GetFlow_def remote_lookup_def Let_def fun_eq_iff
      split: option.splits prod.splits res.splits sum.splits)

text \<open>
  C4. Let uri not begin with \<open>res://\<close> and have no entry in the remote cache, so that
  \<open>GetFlow(uri)\<close> calls the provider. If the provider returns an error, or returns a
  representation that \<open>materializeFlow\<close> rejects, then \<open>GetFlow(uri)\<close> returns that
  error, every lookup in the remote cache gives what it gave before (no entry for uri
  is added), and the next \<open>GetFlow(uri)\<close> calls the provider again.
\<close>

theorem GetFlow_failure_not_cached:
  assumes "\<not> prefix uriSchemeRes uri"
    and "remote_lookup s uri = None"
    and "flowProvider (rm s) uri (world s) = (r, w)"
    and "r = Err e \<or> (\<exists>defRep. r = Val defRep \<and> materializeFlow L defRep = Inl e)"
  shows "fst (GetFlow L uri s) = Err e
       \<and> remote_lookup (snd (GetFlow L uri s)) = remote_lookup s
       \<and> trace (snd (GetFlow L uri s)) = trace s @ [Fetch uri]
       \<and> (\<exists>ev. trace (snd (GetFlow L uri (snd (GetFlow L uri s)))) = trace s @ [Fetch uri, Fetch uri] @ ev)"
proof -
  note f = GetFlow_failure [OF assms]
  from f(2) assms(2) have "remote_lookup (snd (GetFlow L uri s)) uri = None"
    by simp
  from GetFlow_miss_fetches [OF assms(1) this, of L] f(3)
  have "\<exists>ev. trace (snd (GetFlow L uri (snd (GetFlow L uri s)))) = trace s @ [Fetch uri, Fetch uri] @ ev"
    by auto
  with f show ?thesis by simp
qed

theorem GetFlow_failure_not_cached_witness:
  "\<not> prefix uriSchemeRes ''http://unreachable.invalid/flow''
   \<and> remote_lookup (init demo_libs None demo_io) ''http://unreachable.invalid/flow'' = None
   \<and> fst (GetFlow demo_libs ''http://unreachable.invalid/flow'' (init demo_libs None demo_io))
       = Err (Errorf ''error getting flow with uri 'http://unreachable.invalid/flow', Get http://unreachable.invalid/flow: dial tcp: no such host'')
   \<and> remote_lookup (snd (GetFlow demo_libs ''http://unreachable.invalid/flow'' (init demo_libs None demo_io)))
         ''http://unreachable.invalid/flow'' = None
   \<and> trace (snd (GetFlow demo_libs ''http://unreachable.invalid/flow''
         (snd (GetFlow demo_libs ''http://unreachable.invalid/flow'' (init demo_libs None demo_io)))))
       = [Fetch ''http://unreachable.invalid/flow'', Fetch ''http://unreachable.invalid/flow'']
   \<and> \<not> prefix uriSchemeRes main_uri
   \<and> remote_lookup (init strict_libs None demo_io) main_uri = None
   \<and> materializeFlow strict_libs flow_json = Inl (Errorf ''error unmarshalling flow: flow without tasks'')
   \<and> fst (GetFlow strict_libs main_uri (init strict_libs None demo_io))
       = Err (Errorf ''error unmarshalling flow: flow without tasks'')
   \<and> remote_lookup (snd (GetFlow strict_libs main_uri (init strict_libs None demo_io))) main_uri = None"
proof -
  let ?uri = "''http://unreachable.invalid/flow''"
  let ?s = "init demo_libs None demo_io"
  let ?e = "Errorf ''error getting flow with uri 'http://unreachable.invalid/flow', Get http://unreachable.invalid/flow: dial tcp: no such host''"
  let ?s' = "init strict_libs None demo_io"
  let ?e' = "Errorf ''error unmarshalling flow: flow without tasks''"
  have h1: "\<not> prefix uriSchemeRes ?uri"
    by (simp add: uriSchemeRes_def)
  have h2: "remote_lookup ?s ?uri = None"
    by (simp add: remote_lookup_def init_def NewFlowManager_def)
  have h3: "flowProvider (rm ?s) ?uri (world ?s) = (Err ?e, demo_io)"
    by (simp add: demo_eval code_eval)
  have h4: "Err ?e = Err ?e \<or> (\<exists>defRep. Err ?e = Val defRep \<and> materializeFlow demo_libs defRep = Inl ?e)"
    by simp
  have h5: "trace (snd (GetFlow demo_libs ?uri (snd (GetFlow demo_libs ?uri ?s)))) = [Fetch ?uri, Fetch ?uri]"
    by (simp add: demo_eval code_eval)
  have k1: "\<not> prefix uriSchemeRes main_uri"
    by (simp add: uriSchemeRes_def main_uri_def)
  have k2: "remote_lookup ?s' main_uri = None"
    by (simp add: remote_lookup_def init_def NewFlowManager_def)
  have k3: "flowProvider (rm ?s') main_uri (world ?s') = (Val flow_json, demo_io)"
    by (simp add: strict_libs_def demo_eval code_eval)
  have k4: "materializeFlow strict_libs flow_json = Inl ?e'"
    by (simp add: strict_libs_def demo_eval code_eval)
  then have k5: "Val flow_json = Err ?e'
      \<or> (\<exists>defRep. Val flow_json = Val defRep \<and> materializeFlow strict_libs defRep = Inl ?e')"
    by simp
  from GetFlow_failure_not_cached [OF h1 h2 h3 h4] GetFlow_failure_not_cached [OF k1 k2 k3 k5]
    h1 h2 h5 k1 k2 k4
  show ?thesis by simp
qed

subsection \<open>The two caches\<close>

lemma materializeFlow_materialized:
  assumes "materializeFlow L rep = Inr def"
  shows "materialized def"
  using assms
  by (auto simp: materializeFlow_def materialized_def SetLinkExprManager_def Let_def
      split: sum.splits)

lemma LoadResource_success:
  assumes "fst (LoadResource L config s) = None"
  shows "\<exists>flow. materialized flow
           \<and> resFlows (rm (snd (LoadResource L config s))) = (resFlows (rm s))(ID config \<mapsto> flow)"
  using assms
  by (auto simp: LoadResource_def split: sum.splits if_splits
      intro: materializeFlow_materialized)

lemma LoadResource_failure:
  assumes "fst (LoadResource L config s) \<noteq> None"
  shows "snd (LoadResource L config s) = s"
  using assms by (auto simp: LoadResource_def split: sum.splits if_splits)

lemma LoadResource_other_id:
  assumes "ID config \<noteq> rid"
  shows "resFlows (rm (snd (LoadResource L config s))) rid = resFlows (rm s) rid"
  using assms by (auto simp: LoadResource_def split: sum.splits if_splits)

lemma init_materialized: "caches_materialized (init L provider W)"
  by (simp add: caches_materialized_def init_def NewFlowManager_def remote_lookup_def)

lemma GetFlow_materialized:
  assumes "caches_materialized s"
  shows "caches_materialized (snd (GetFlow L uri s))"
proof -
  have "materialized def" if "remote_lookup (snd (GetFlow L uri s)) u = Some def" for u def
  proof (cases "remote_lookup s u")
    case (Some d)
    then have "remote_lookup (snd (GetFlow L uri s)) u = Some d"
      by (rule GetFlow_keeps_remote)
    with that Some assms show ?thesis
      by (simp add: caches_materialized_def)
  next
    case None
    with that show ?thesis
      by (auto simp: GetFlow_def remote_lookup_def Let_def
          split: option.splits prod.splits res.splits sum.splits if_splits
          intro: materializeFlow_materialized)
  qed
  with assms show ?thesis
    by (simp add: caches_materialized_def GetFlow_keeps_resFlows)
qed

lemma LoadResource_materialized:
  assumes "caches_materialized s"
  shows "caches_materialized (snd (LoadResource L config s))"
proof (cases "fst (LoadResource L config s)")
  case None
  from LoadResource_success [OF this] obtain flow where
    "materialized flow" "resFlows (rm (snd (LoadResource L config s))) = (resFlows (rm s))(ID config \<mapsto> flow)"
    by blast
  with assms show ?thesis
    by (auto simp: caches_materialized_def LoadResource_remote)
next
  case (Some e)
  then have "snd (LoadResource L config s) = s"
    by (simp add: LoadResource_failure)
  with assms show ?thesis by simp
qed

lemma run_materialized:
  assumes "caches_materialized s"
  shows "caches_materialized (run L calls s)"
  using assms
proof (induction calls arbitrary: s)
  case Nil
  then show ?case by (simp add: run_def)
next
  case (Cons c calls)
  have "caches_materialized (step L s c)"
    using Cons.prems by (cases c) (simp_all add: GetFlow_materialized LoadResource_materialized)
  then show ?case
    unfolding run_Cons by (rule Cons.IH)
qed

text \<open>
  C3, as the claim states it, fails: a second \<open>LoadResource\<close> with the same id and
  another payload replaces the definition stored under the id.
\<close>

theorem LoadResource_overwrites_counterexample:
  "GetResource ''main'' (snd (LoadResource demo_libs cfg_main (init demo_libs None demo_io)))
     = Some \<lparr>def_body = [0x7b, 0x7d], linkExprMgr = Some ''gos''\<rparr>
   \<and> GetResource ''main''
       (snd (LoadResource demo_libs cfg_main_again
          (snd (LoadResource demo_libs cfg_main (init demo_libs None demo_io)))))
     = Some \<lparr>def_body = [0x7b, 0x20, 0x7d], linkExprMgr = Some ''gos''\<rparr>
   \<and> GetResource ''main''
       (snd (LoadResource demo_libs cfg_main_again
          (snd (LoadResource demo_libs cfg_main (init demo_libs None demo_io)))))
     \<noteq> GetResource ''main'' (snd (LoadResource demo_libs cfg_main (init demo_libs None demo_io)))"
  by (simp add: demo_eval code_eval)

lemma LoadResource_stores:
  assumes "fst (LoadResource L config s) = None"
  shows "\<exists>flowDefBytes defRep flow.
           (if Compressed config
            then decodeAndUnzip L (string_of_bytes (Data config)) = Inr flowDefBytes
            else flowDefBytes = Data config)
           \<and> json_Unmarshal L flowDefBytes = Inr defRep
           \<and> materializeFlow L defRep = Inr flow
           \<and> snd (LoadResource L config s)
               = s\<lparr>rm := (rm s)\<lparr>resFlows := (resFlows (rm s))(ID config \<mapsto> flow)\<rparr>\<rparr>"
  using assms
  by (auto simp: LoadResource_def split: sum.splits if_splits)

text \<open>
  C3, amended. In every state that a sequence of calls reaches from a new manager:
  an entry of the remote cache is a materialized definition and keeps its value through
  every further sequence of calls; an entry of the preloaded cache is a materialized
  definition, keeps its value through every \<open>GetFlow\<close>, through every \<open>LoadResource\<close>
  with another id and through every \<open>LoadResource\<close> that fails; and a \<open>LoadResource\<close>
  that succeeds stores under its id, whatever was there, the definition that
  \<open>materializeFlow\<close> makes of the representation that \<open>json.Unmarshal\<close> reads from its
  payload (from the payload decoded and unzipped, when the configuration is marked
  compressed), which is materialized, and changes nothing else of the state.
\<close>

theorem cache_entries:
  assumes "s = run L calls (init L provider W)"
  shows "(remote_lookup s uri = Some def \<longrightarrow>
            materialized def \<and> remote_lookup (run L calls' s) uri = Some def)
       \<and> (resFlows (rm s) rid = Some def' \<longrightarrow>
            materialized def'
            \<and> resFlows (rm (snd (GetFlow L uri' s))) rid = Some def'
            \<and> (ID config \<noteq> rid \<or> fst (LoadResource L config s) \<noteq> None \<longrightarrow>
                 resFlows (rm (snd (LoadResource L config s))) rid = Some def'))
       \<and> (fst (LoadResource L config s) = None \<longrightarrow>
            (\<exists>flowDefBytes defRep flow.
               (if Compressed config
                then decodeAndUnzip L (string_of_bytes (Data config)) = Inr flowDefBytes
                else flowDefBytes = Data config)
               \<and> json_Unmarshal L flowDefBytes = Inr defRep
               \<and> materializeFlow L defRep = Inr flow
               \<and> materialized flow
               \<and> snd (LoadResource L config s)
                   = s\<lparr>rm := (rm s)\<lparr>resFlows := (resFlows (rm s))(ID config \<mapsto> flow)\<rparr>\<rparr>))"
proof -
  have m: "caches_materialized s"
    unfolding assms by (rule run_materialized) (rule init_materialized)
  have 1: "materialized def \<and> remote_lookup (run L calls' s) uri = Some def"
    if "remote_lookup s uri = Some def"
    using that m run_cached [OF that, of L calls'] by (simp add: caches_materialized_def)
  have 2: "materialized def'" if "resFlows (rm s) rid = Some def'"
    using that m by (simp add: caches_materialized_def)
  have 3: "resFlows (rm (snd (LoadResource L config s))) rid = resFlows (rm s) rid"
    if "ID config \<noteq> rid \<or> fst (LoadResource L config s) \<noteq> None"
    using that LoadResource_other_id [of config rid L s] LoadResource_failure [of L config s]
    by auto
  have 4: "\<exists>flowDefBytes defRep flow.
               (if Compressed config
                then decodeAndUnzip L (string_of_bytes (Data config)) = Inr flowDefBytes
                else flowDefBytes = Data config)
               \<and> json_Unmarshal L flowDefBytes = Inr defRep
               \<and> materializeFlow L defRep = Inr flow
               \<and> materialized flow
               \<and> snd (LoadResource L config s)
                   = s\<lparr>rm := (rm s)\<lparr>resFlows := (resFlows (rm s))(ID config \<mapsto> flow)\<rparr>\<rparr>"
    if "fst (LoadResource L config s) = None"
  proof -
    from LoadResource_stores [OF that] obtain flowDefBytes defRep flow where
      f: "if Compressed config
          then decodeAndUnzip L (string_of_bytes (Data config)) = Inr flowDefBytes
          else flowDefBytes = Data config"
        "json_Unmarshal L flowDefBytes = Inr defRep"
        "materializeFlow L defRep = Inr flow"
        "snd (LoadResource L config s)
           = s\<lparr>rm := (rm s)\<lparr>resFlows := (resFlows (rm s))(ID config \<mapsto> flow)\<rparr>\<rparr>"
      by auto
    from f(3) have "materialized flow"
      by (rule materializeFlow_materialized)
    with f show ?thesis
      by (intro exI [of _ flowDefBytes] exI [of _ defRep] exI [of _ flow]) simp
  qed
  from 1 2 3 4 show ?thesis
    by (simp add: GetFlow_keeps_resFlows)
qed

theorem cache_entries_witness:
  "remote_lookup loaded_state main_uri = Some main_def
   \<and> resFlows (rm loaded_state) ''main'' = Some main_def
   \<and> ID cfg_other \<noteq> ''main''
   \<and> fst (LoadResource demo_libs cfg_other loaded_state) = None
   \<and> fst (LoadResource demo_libs cfg_main_again loaded_state) = None
   \<and> materialized main_def
   \<and> remote_lookup
        (run demo_libs [CallGetFlow ''http://unreachable.invalid/flow'', CallLoadResource cfg_main_again]
           loaded_state) main_uri = Some main_def
   \<and> resFlows (rm (snd (GetFlow demo_libs ''http://flows.example/plain'' loaded_state))) ''main'' = Some main_def
   \<and> resFlows (rm (snd (LoadResource demo_libs cfg_other loaded_state))) ''main'' = Some main_def
   \<and> decodeAndUnzip demo_libs (string_of_bytes (Data cfg_other)) = Inr flow_json
   \<and> json_Unmarshal demo_libs flow_json = Inr flow_json
   \<and> materializeFlow demo_libs flow_json = Inr main_def
   \<and> snd (LoadResource demo_libs cfg_other loaded_state)
       = loaded_state\<lparr>rm := (rm loaded_state)\<lparr>resFlows := (resFlows (rm loaded_state))(''other'' \<mapsto> main_def)\<rparr>\<rparr>
   \<and> json_Unmarshal demo_libs (Data cfg_main_again) = Inr [0x7b, 0x20, 0x7d]
   \<and> materializeFlow demo_libs [0x7b, 0x20, 0x7d]
       = Inr \<lparr>def_body = [0x7b, 0x20, 0x7d], linkExprMgr = Some ''gos''\<rparr>
   \<and> snd (LoadResource demo_libs cfg_main_again loaded_state)
       = loaded_state\<lparr>rm := (rm loaded_state)\<lparr>resFlows := (resFlows (rm loaded_state))
           (''main'' \<mapsto> \<lparr>def_body = [0x7b, 0x20, 0x7d], linkExprMgr = Some ''gos''\<rparr>)\<rparr>\<rparr>"
proof -
  have h0: "loaded_state = run demo_libs [CallLoadResource cfg_main, CallGetFlow main_uri] (init demo_libs None demo_io)"
    by (simp add: loaded_state_def)
  have h1: "remote_lookup loaded_state main_uri = Some main_def"
    by (simp add: loaded_state_def demo_eval code_eval)
  have h2: "resFlows (rm loaded_state) ''main'' = Some main_def"
    by (simp add: loaded_state_def demo_eval code_eval)
  have h3: "ID cfg_other \<noteq> ''main''"
    by (simp add: cfg_other_def)
  have d1: "decodeAndUnzip demo_libs (string_of_bytes (Data cfg_other)) = Inr flow_json"
    by (simp add: cfg_other_def demo_eval code_eval)
  have d2: "json_Unmarshal demo_libs flow_json = Inr flow_json"
    by (simp add: demo_eval)
  have d3: "materializeFlow demo_libs flow_json = Inr main_def"
    by (simp add: demo_eval code_eval)
  have e2: "json_Unmarshal demo_libs (Data cfg_main_again) = Inr [0x7b, 0x20, 0x7d]"
    by (simp add: demo_eval)
  have e3: "materializeFlow demo_libs [0x7b, 0x20, 0x7d]
       = Inr \<lparr>def_body = [0x7b, 0x20, 0x7d], linkExprMgr = Some ''gos''\<rparr>"
    by (simp add: demo_eval code_eval)
  have h4: "fst (LoadResource demo_libs cfg_other loaded_state) = None"
    using d1 d2 d3 by (simp add: LoadResource_def cfg_other_def)
  have h5: "fst (LoadResource demo_libs cfg_main_again loaded_state) = None"
    using e2 e3 by (simp add: LoadResource_def cfg_main_again_def)
  from cache_entries [OF h0, of main_uri main_def
      "[CallGetFlow ''http://unreachable.invalid/flow'', CallLoadResource cfg_main_again]"
      "''main''" main_def "''http://flows.example/plain''" cfg_other] h1 h2 h3 h4 d1 d2 d3
  have A: "materialized main_def
   \<and> remote_lookup
        (run demo_libs [CallGetFlow ''http://unreachable.invalid/flow'', CallLoadResource cfg_main_again]
           loaded_state) main_uri = Some main_def
   \<and> resFlows (rm (snd (GetFlow demo_libs ''http://flows.example/plain'' loaded_state))) ''main'' = Some main_def
   \<and> resFlows (rm (snd (LoadResource demo_libs cfg_other loaded_state))) ''main'' = Some main_def
   \<and> snd (LoadResource demo_libs cfg_other loaded_state)
       = loaded_state\<lparr>rm := (rm loaded_state)\<lparr>resFlows := (resFlows (rm loaded_state))(''other'' \<mapsto> main_def)\<rparr>\<rparr>"
    by (auto simp: cfg_other_def)
  from cache_entries [OF h0, of main_uri main_def "[]" "''main''" main_def "''http://flows.example/plain''"
      cfg_main_again] h5 e2 e3
  have B: "snd (LoadResource demo_libs cfg_main_again loaded_state)
       = loaded_state\<lparr>rm := (rm loaded_state)\<lparr>resFlows := (resFlows (rm loaded_state))
           (''main'' \<mapsto> \<lparr>def_body = [0x7b, 0x20, 0x7d], linkExprMgr = Some ''gos''\<rparr>)\<rparr>\<rparr>"
    by (auto simp: cfg_main_again_def)
  from h1 h2 h3 h4 h5 A B d1 d2 d3 e2 e3 show ?thesis
    by simp
qed

subsection \<open>The compression flag\<close>

lemma canonical_flow_compressed:
  "CanonicalMIMEHeaderKey ''flow-compressed'' = ''Flow-Compressed''"
  by (simp add: CanonicalMIMEHeaderKey_def validHeaderFieldByte_def toUpper_byte_def
      toLower_byte_def char_of_def bit_Suc_0_iff)

lemma toLower_byte_eq:
  assumes "(97 :: nat) \<le> of_char l" and "(of_char l :: nat) \<le> 122"
  shows "toLower_byte c = l \<longleftrightarrow> c = l \<or> (of_char c :: nat) + 32 = of_char l"
proof (cases "(65 :: nat) \<le> of_char c \<and> (of_char c :: nat) \<le> 90")
  case True
  then have "toLower_byte c = char_of (of_char c + (32::nat))"
    by (simp add: toLower_byte_def)
  moreover have "(of_char (char_of (of_char c + (32::nat))) :: nat) = of_char c + 32"
    using True by simp
  ultimately have "toLower_byte c = l \<longleftrightarrow> (of_char c :: nat) + 32 = of_char l"
    by (metis of_char_eq_iff)
  moreover have "c \<noteq> l"
    using True assms by auto
  ultimately show ?thesis by simp
next
  case False
  then have "toLower_byte c = c"
    by (auto simp: toLower_byte_def)
  moreover have "(of_char c :: nat) + 32 \<noteq> of_char l"
    using False assms by auto
  ultimately show ?thesis by simp
qed

lemma of_char_eq_nat:
  assumes "(of_char d :: nat) = n"
  shows "(of_char c :: nat) = n \<longleftrightarrow> c = d"
  using assms by (metis of_char_eq_iff)

lemma toLower_t: "toLower_byte c = CHR ''t'' \<longleftrightarrow> c = CHR ''t'' \<or> c = CHR ''T''"
  using toLower_byte_eq [of "CHR ''t''" c] by (simp add: of_char_eq_nat [of "CHR ''T''"])

lemma toLower_r: "toLower_byte c = CHR ''r'' \<longleftrightarrow> c = CHR ''r'' \<or> c = CHR ''R''"
  using toLower_byte_eq [of "CHR ''r''" c] by (simp add: of_char_eq_nat [of "CHR ''R''"])

lemma toLower_u: "toLower_byte c = CHR ''u'' \<longleftrightarrow> c = CHR ''u'' \<or> c = CHR ''U''"
  using toLower_byte_eq [of "CHR ''u''" c] by (simp add: of_char_eq_nat [of "CHR ''U''"])

lemma toLower_e: "toLower_byte c = CHR ''e'' \<longleftrightarrow> c = CHR ''e'' \<or> c = CHR ''E''"
  using toLower_byte_eq [of "CHR ''e''" c] by (simp add: of_char_eq_nat [of "CHR ''E''"])

lemma ToLower_true:
  "strings_ToLower val = ''true'' \<longleftrightarrow> equal_true_ignoring_case val"
  by (auto simp: strings_ToLower_def equal_true_ignoring_case_def toLower_t toLower_r toLower_u toLower_e
      split: list.splits)

subsection \<open>The default provider: files\<close>

lemma fetch_file_three_bytes:
  assumes "ReadFile W (URLStringToFilePath W uri) = Inr content"
    and "3 \<le> length content"
  shows "fetch_file L W uri =
     (if content ! 0 = 0x1f \<and> content ! 2 = 0x8b then
        (case unzip L content of
           Inl err \<Rightarrow>
             Err (Errorf (''error uncompressing flow with uri '' @ [CHR 0x27] @ uri @ [CHR 0x27] @ '', '' @ Error_msg err))
         | Inr flowDefBytes \<Rightarrow> Val flowDefBytes)
      else Val content)"
  using assms by (auto simp: fetch_file_def at_def)

text \<open>
  C5. The sniff decides as the claim says on a file of three bytes or more
  (\<open>fetch_file_three_bytes\<close>). On a file of one or two bytes whose first byte is
  \<open>0x1F\<close> there is no byte at offset 2, so by the claim the content is plain JSON;
  the provider reads offset 2 all the same and panics.
\<close>

theorem sniff_without_third_byte:
  assumes "prefix uriSchemeFile uri"
    and "ReadFile W (URLStringToFilePath W uri) = Inr content"
    and "content = [0x1f] \<or> content = [0x1f, b1]"
  shows "BasicRemoteFlowProvider_GetFlow L W uri = Panic (IndexOutOfRange 2 (length content))"
  using assms by (auto simp: BasicRemoteFlowProvider_GetFlow_def fetch_file_def at_def)

theorem sniff_without_third_byte_witness:
  "prefix uriSchemeFile ''file:///flows/short.json''
   \<and> ReadFile demo_io (URLStringToFilePath demo_io ''file:///flows/short.json'') = Inr [0x1f, 0x8b]
   \<and> BasicRemoteFlowProvider_GetFlow demo_libs demo_io ''file:///flows/short.json''
       = Panic (IndexOutOfRange 2 2)"
proof -
  have h1: "prefix uriSchemeFile ''file:///flows/short.json''"
    by (simp add: uriSchemeFile_def)
  have h2: "ReadFile demo_io (URLStringToFilePath demo_io ''file:///flows/short.json'') = Inr [0x1f, 0x8b]"
    by (simp add: demo_io_def demo_ReadFile_def)
  have h3: "[0x1f, 0x8b] = [0x1f] \<or> [0x1f, 0x8b] = [0x1f, (0x8b :: byte)]"
    by simp
  from sniff_without_third_byte [OF h1 h2 h3, of demo_libs] h1 h2
  show ?thesis by simp
qed

text \<open>
  C9. Let the file of a \<open>file://\<close> URI be read without error and hold fewer than three
  bytes. If it is empty, the provider panics on the read of offset 0; if its first byte
  is \<open>0x1F\<close>, it panics on the read of offset 2; in both cases no error value is
  returned. (Offset 2 is read only after offset 0 was found to be \<open>0x1F\<close>: with any
  other first byte the provider does not panic.)
\<close>

theorem sniff_panics_on_short_file:
  assumes "prefix uriSchemeFile uri"
    and "ReadFile W (URLStringToFilePath W uri) = Inr content"
    and "length content < 3"
  shows "(content = [] \<longrightarrow> BasicRemoteFlowProvider_GetFlow L W uri = Panic (IndexOutOfRange 0 0))
       \<and> (content \<noteq> [] \<and> hd content = 0x1f \<longrightarrow>
            BasicRemoteFlowProvider_GetFlow L W uri = Panic (IndexOutOfRange 2 (length content)))
       \<and> (content \<noteq> [] \<and> hd content \<noteq> 0x1f \<longrightarrow>
            (\<forall>p. BasicRemoteFlowProvider_GetFlow L W uri \<noteq> Panic p))"
  using assms
  by (cases content)
     (auto simp: BasicRemoteFlowProvider_GetFlow_def fetch_file_def at_def split: sum.splits)

theorem sniff_panics_on_short_file_witness:
  "prefix uriSchemeFile ''file:///flows/empty.json''
   \<and> ReadFile demo_io (URLStringToFilePath demo_io ''file:///flows/empty.json'') = Inr []
   \<and> length ([] :: bytes) < 3
   \<and> BasicRemoteFlowProvider_GetFlow demo_libs demo_io ''file:///flows/empty.json''
       = Panic (IndexOutOfRange 0 0)
   \<and> BasicRemoteFlowProvider_GetFlow demo_libs (demo_io\<lparr>ReadFile := (\<lambda>_. Inr [0x1f])\<rparr>) ''file:///flows/empty.json''
       = Panic (IndexOutOfRange 2 1)"
proof -
  have h1: "prefix uriSchemeFile ''file:///flows/empty.json''"
    by (simp add: uriSchemeFile_def)
  have h2: "ReadFile demo_io (URLStringToFilePath demo_io ''file:///flows/empty.json'') = Inr []"
    by (simp add: demo_io_def demo_ReadFile_def)
  have h3: "length ([] :: bytes) < 3"
    by simp
  have h4: "ReadFile (demo_io\<lparr>ReadFile := (\<lambda>_. Inr [0x1f])\<rparr>)
      (URLStringToFilePath (demo_io\<lparr>ReadFile := (\<lambda>_. Inr [0x1f])\<rparr>) ''file:///flows/empty.json'') = Inr [0x1f]"
    by simp
  have h5: "length ([0x1f] :: bytes) < 3"
    by simp
  from sniff_panics_on_short_file [OF h1 h2 h3, of demo_libs]
    sniff_panics_on_short_file [OF h1 h4 h5, of demo_libs] h1 h2
  show ?thesis by simp
qed

subsection \<open>The default provider: HTTP\<close>

text \<open>
  C10. Let uri not begin with \<open>file://\<close> and let \<open>http.NewRequest\<close> reject it (no
  request, an error). The provider does not look at that error and gives the nil request
  to \<open>client.Do\<close>: the call panics with a nil pointer dereference, and no error value is
  returned.
\<close>

theorem invalid_url_panics:
  assumes "\<not> prefix uriSchemeFile uri"
    and "http_NewRequest W ''GET'' uri = (None, Some e)"
  shows "BasicRemoteFlowProvider_GetFlow L W uri = Panic NilPointerDereference"
  using assms by (simp add: BasicRemoteFlowProvider_GetFlow_def fetch_http_def Client_Do_def)

theorem invalid_url_panics_witness:
  "\<not> prefix uriSchemeFile '':bad''
   \<and> http_NewRequest demo_io ''GET'' '':bad'' = (None, Some (LibError ''parse :bad: missing protocol scheme''))
   \<and> BasicRemoteFlowProvider_GetFlow demo_libs demo_io '':bad'' = Panic NilPointerDereference"
proof -
  have h1: "\<not> prefix uriSchemeFile '':bad''"
    by (simp add: uriSchemeFile_def)
  have h2: "http_NewRequest demo_io ''GET'' '':bad'' = (None, Some (LibError ''parse :bad: missing protocol scheme''))"
    by (simp add: demo_io_def demo_NewRequest_def)
  from invalid_url_panics [OF h1 h2, of demo_libs] h1 h2
  show ?thesis by simp
qed

text \<open>
  C7. Let the request for uri be built and answered with a status below 300 and a body
  that is read without error. If the value of the header \<open>flow-compressed\<close> equals
  \<open>true\<close> up to the case of its letters, the bytes the provider goes on to parse are
  what \<open>ioutil.ReadAll\<close> reads from the reader that \<open>gzip.NewReader\<close> opens on the bytes
  that \<open>base64.StdEncoding.DecodeString\<close> decodes from the body, and an error of the gzip
  reader is returned as the error of decoding the flow. For every other value, the empty
  one of an absent header included, they are the body as it is.
\<close>

theorem http_compressed_flag:
  assumes "http_NewRequest W ''GET'' uri = (Some req, err)"
    and "client_Do W req = Inr resp"
    and "StatusCode resp < 300"
    and "Body resp = Inr body"
  shows "fetch_http L W uri =
     (if equal_true_ignoring_case (Header_Get (Header resp) ''flow-compressed'') then
        (case gzip_NewReader L (fst (base64_DecodeString L (string_of_bytes body))) of
           Inl err \<Rightarrow>
             Err (Errorf (''error decoding compressed flow with uri '' @ [CHR 0x27] @ uri @ [CHR 0x27] @ '', '' @ Error_msg err))
         | Inr r \<Rightarrow>
             (case gzip_ReadAll L r of
                Inl err \<Rightarrow>
                  Err (Errorf (''error decoding compressed flow with uri '' @ [CHR 0x27] @ uri @ [CHR 0x27] @ '', '' @ Error_msg err))
              | Inr decodedBytes \<Rightarrow> Val decodedBytes))
      else Val body)"
  using assms
  by (simp add: fetch_http_def Client_Do_def ToLower_true decodeAndUnzip_def unzip_def
      split: prod.splits sum.splits)

theorem http_compressed_flag_witness:
  "http_NewRequest demo_io ''GET'' ''http://flows.example/compressed''
     = (Some \<lparr>req_Method = ''GET'', req_URL = ''http://flows.example/compressed''\<rparr>, None)
   \<and> client_Do demo_io \<lparr>req_Method = ''GET'', req_URL = ''http://flows.example/compressed''\<rparr>
     = Inr compressed_response
   \<and> StatusCode compressed_response < 300
   \<and> Body compressed_response = Inr (bytes_of_string flow_gz_b64)
   \<and> Header_Get (Header compressed_response) ''flow-compressed'' = ''True''
   \<and> base64_DecodeString demo_libs (string_of_bytes (bytes_of_string flow_gz_b64)) = (flow_gz, None)
   \<and> gzip_NewReader demo_libs flow_gz = Inr (drop 10 flow_gz)
   \<and> gzip_ReadAll demo_libs (drop 10 flow_gz) = Inr flow_json
   \<and> fetch_http demo_libs demo_io ''http://flows.example/compressed'' = Val flow_json
   \<and> http_NewRequest demo_io ''GET'' ''http://flows.example/plain''
     = (Some \<lparr>req_Method = ''GET'', req_URL = ''http://flows.example/plain''\<rparr>, None)
   \<and> client_Do demo_io \<lparr>req_Method = ''GET'', req_URL = ''http://flows.example/plain''\<rparr>
     = Inr plain_response
   \<and> StatusCode plain_response < 300
   \<and> Body plain_response = Inr flow_json
   \<and> Header_Get (Header plain_response) ''flow-compressed'' = []
   \<and> fetch_http demo_libs demo_io ''http://flows.example/plain'' = Val flow_json
   \<and> fetch_http demo_libs
        (demo_io\<lparr>client_Do := (\<lambda>req. Inr (compressed_response\<lparr>Header := (\<lambda>key. [''false''])\<rparr>))\<rparr>)
        ''http://flows.example/compressed''
     = Val (bytes_of_string flow_gz_b64)"
proof -
  let ?req1 = "\<lparr>req_Method = ''GET'', req_URL = ''http://flows.example/compressed''\<rparr>"
  let ?req2 = "\<lparr>req_Method = ''GET'', req_URL = ''http://flows.example/plain''\<rparr>"
  let ?resp3 = "compressed_response\<lparr>Header := (\<lambda>key. [''false''])\<rparr>"
  let ?io3 = "demo_io\<lparr>client_Do := (\<lambda>req. Inr ?resp3)\<rparr>"
  have a1: "http_NewRequest demo_io ''GET'' ''http://flows.example/compressed'' = (Some ?req1, None)"
    by (simp add: demo_io_def demo_NewRequest_def)
  have a2: "client_Do demo_io ?req1 = Inr compressed_response"
    by (simp add: demo_io_def demo_Do_def)
  have a3: "StatusCode compressed_response < 300"
    by (simp add: compressed_response_def)
  have a4: "Body compressed_response = Inr (bytes_of_string flow_gz_b64)"
    by (simp add: compressed_response_def)
  have a5: "Header_Get (Header compressed_response) ''flow-compressed'' = ''True''"
    by (simp add: Header_Get_def canonical_flow_compressed compressed_response_def)
  have a6: "base64_DecodeString demo_libs (string_of_bytes (bytes_of_string flow_gz_b64)) = (flow_gz, None)"
    by (simp add: demo_eval code_eval)
  have a7: "gzip_NewReader demo_libs flow_gz = Inr (drop 10 flow_gz)"
    by (simp add: demo_eval code_eval)
  have a8: "gzip_ReadAll demo_libs (drop 10 flow_gz) = Inr flow_json"
    by (simp add: demo_eval code_eval)
  have b1: "http_NewRequest demo_io ''GET'' ''http://flows.example/plain'' = (Some ?req2, None)"
    by (simp add: demo_io_def demo_NewRequest_def)
  have b2: "client_Do demo_io ?req2 = Inr plain_response"
    by (simp add: demo_io_def demo_Do_def)
  have b3: "StatusCode plain_response < 300"
    by (simp add: plain_response_def)
  have b4: "Body plain_response = Inr flow_json"
    by (simp add: plain_response_def)
  have b5: "Header_Get (Header plain_response) ''flow-compressed'' = []"
    by (simp add: Header_Get_def canonical_flow_compressed plain_response_def)
  have c1: "http_NewRequest ?io3 ''GET'' ''http://flows.example/compressed'' = (Some ?req1, None)"
    by (simp add: demo_io_def demo_NewRequest_def)
  have c2: "client_Do ?io3 ?req1 = Inr ?resp3"
    by simp
  have c3: "StatusCode ?resp3 < 300"
    by (simp add: compressed_response_def)
  have c4: "Body ?resp3 = Inr (bytes_of_string flow_gz_b64)"
    by (simp add: compressed_response_def)
  have c5: "Header_Get (Header ?resp3) ''flow-compressed'' = ''false''"
    by (simp add: Header_Get_def canonical_flow_compressed)
  from http_compressed_flag [OF a1 a2 a3 a4, of demo_libs] a5 a6 a7 a8
  have 1: "fetch_http demo_libs demo_io ''http://flows.example/compressed'' = Val flow_json"
    by (simp add: equal_true_ignoring_case_def)
  from http_compressed_flag [OF b1 b2 b3 b4, of demo_libs] b5
  have 2: "fetch_http demo_libs demo_io ''http://flows.example/plain'' = Val flow_json"
    by (simp add: equal_true_ignoring_case_def)
  from http_compressed_flag [OF c1 c2 c3 c4, of demo_libs] c5
  have 3: "fetch_http demo_libs ?io3 ''http://flows.example/compressed'' = Val (bytes_of_string flow_gz_b64)"
    by (simp add: equal_true_ignoring_case_def)
  from a1 a2 a3 a4 a5 a6 a7 a8 1 b1 b2 b3 b4 b5 2 3 show ?thesis
    by simp
qed

text \<open>The values of the flag that the specification names.\<close>

lemma compression_flag_values:
  "strings_ToLower ''True'' = ''true''" "strings_ToLower ''TRUE'' = ''true''"
  "strings_ToLower ''true'' = ''true''" "strings_ToLower ''false'' \<noteq> ''true''"
  "strings_ToLower [] \<noteq> ''true''" "Header_Get (\<lambda>key. []) ''flow-compressed'' = []"
  by (simp_all add: ToLower_true equal_true_ignoring_case_def Header_Get_def)

subsection \<open>unzip and decodeAndUnzip\<close>

text \<open>
  C6. \<open>decodeAndUnzip\<close> does not surface the error of the base64 decoder: when
  \<open>DecodeString\<close> reports an error, the result is that of \<open>unzip\<close> on the bytes decoded
  before the error. On valid base64 of a gzip stream followed by a character outside
  the alphabet that result is the decompressed data and no error at all.
\<close>

theorem decodeAndUnzip_drops_base64_error:
  assumes "base64_DecodeString L encoded = (decoded, Some e)"
  shows "decodeAndUnzip L encoded = unzip L decoded"
  using assms by (simp add: decodeAndUnzip_def)

theorem decodeAndUnzip_drops_base64_error_witness:
  "base64_DecodeString demo_libs (flow_gz_b64 @ ''!'') = (flow_gz, Some (CorruptInputError 36))
   \<and> decodeAndUnzip demo_libs (flow_gz_b64 @ ''!'') = Inr flow_json
   \<and> base64_DecodeString demo_libs ''!'' = ([], Some (CorruptInputError 0))
   \<and> decodeAndUnzip demo_libs ''!'' = Inl (LibError ''EOF'')"
proof -
  have h1: "base64_DecodeString demo_libs (flow_gz_b64 @ ''!'') = (flow_gz, Some (CorruptInputError 36))"
    by (simp add: demo_eval)
  have h2: "unzip demo_libs flow_gz = Inr flow_json"
    by (simp add: demo_eval unzip_def)
  have h3: "base64_DecodeString demo_libs ''!'' = ([], Some (CorruptInputError 0))"
    by (simp add: demo_eval)
  have h4: "unzip demo_libs [] = Inl (LibError ''EOF'')"
    by (simp add: demo_eval unzip_def)
  from decodeAndUnzip_drops_base64_error [OF h1] decodeAndUnzip_drops_base64_error [OF h3] h1 h2 h3 h4
  show ?thesis by simp
qed

text \<open>The codec of the instance: decoding inverts encoding, on every input.\<close>

lemma decodeMap_encodeChar:
  assumes "v < 64"
  shows "decodeMap (encodeChar v) = Some v"
  using assms by (auto simp: decodeMap_def encodeChar_def Let_def)

lemma encodeChar_not_newline:
  assumes "v < 64"
  shows "\<not> isNewline (encodeChar v)"
  using decodeMap_encodeChar [OF assms]
  by (auto simp: isNewline_def decodeMap_def)




















lemma length_enc16 [simp]: "length (enc16 n) = 2"
  by (simp add: enc16_def)

lemma length_enc32 [simp]: "length (enc32 n) = 4"
  by (simp add: enc32_def)









end
